theory Spec2Isabelle
  imports Complex_Main "HOL-Library.Char_ord" "HOL-Library.List_Lexorder"
begin

section \<open>Strings\<close>

text \<open>
  Column names, header names and file names are Python \<^verbatim>\<open>str\<close> values. They are
  modelled as \<^typ>\<open>string\<close>, a character standing for a code point below 256; code
  points from 256 on are outside the model. The three string methods the program calls
  are written out for these characters. \<^verbatim>\<open>str.strip()\<close> removes the leading and the
  trailing characters for which \<^verbatim>\<open>str.isspace()\<close> holds: 0x09 to 0x0D, 0x1C to 0x1F,
  the blank, 0x85 and the no-break space 0xA0. \<^verbatim>\<open>str.lower()\<close> maps A to Z and the
  capital letters 0xC0 to 0xDE (the multiplication sign 0xD7 is not one) to their small
  letters, 32 places on, and leaves every other character. \<^verbatim>\<open>str.replace('.', '')\<close> deletes
  every period.
\<close>

definition is_space :: "char \<Rightarrow> bool" where
  "is_space c \<longleftrightarrow>
     c \<in> set [CHR 0x09, CHR 0x0A, CHR 0x0B, CHR 0x0C, CHR 0x0D,
              CHR 0x1C, CHR 0x1D, CHR 0x1E, CHR 0x1F, CHR 0x20, CHR 0x85, CHR 0xA0]"

definition upper_case :: "char list" where
  "upper_case =
     ''ABCDEFGHIJKLMNOPQRSTUVWXYZ'' @
     [CHR 0xC0, CHR 0xC1, CHR 0xC2, CHR 0xC3, CHR 0xC4, CHR 0xC5, CHR 0xC6, CHR 0xC7,
      CHR 0xC8, CHR 0xC9, CHR 0xCA, CHR 0xCB, CHR 0xCC, CHR 0xCD, CHR 0xCE, CHR 0xCF,
      CHR 0xD0, CHR 0xD1, CHR 0xD2, CHR 0xD3, CHR 0xD4, CHR 0xD5, CHR 0xD6,
      CHR 0xD8, CHR 0xD9, CHR 0xDA, CHR 0xDB, CHR 0xDC, CHR 0xDD, CHR 0xDE]"

definition lower_case :: "char list" where
  "lower_case =
     ''abcdefghijklmnopqrstuvwxyz'' @
     [CHR 0xE0, CHR 0xE1, CHR 0xE2, CHR 0xE3, CHR 0xE4, CHR 0xE5, CHR 0xE6, CHR 0xE7,
      CHR 0xE8, CHR 0xE9, CHR 0xEA, CHR 0xEB, CHR 0xEC, CHR 0xED, CHR 0xEE, CHR 0xEF,
      CHR 0xF0, CHR 0xF1, CHR 0xF2, CHR 0xF3, CHR 0xF4, CHR 0xF5, CHR 0xF6,
      CHR 0xF8, CHR 0xF9, CHR 0xFA, CHR 0xFB, CHR 0xFC, CHR 0xFD, CHR 0xFE]"

definition lower_char :: "char \<Rightarrow> char" where
  "lower_char c = (case map_of (zip upper_case lower_case) c of None \<Rightarrow> c | Some d \<Rightarrow> d)"

definition lower :: "string \<Rightarrow> string" where
  "lower s = map lower_char s"

definition strip :: "string \<Rightarrow> string" where
  "strip s = rev (dropWhile is_space (rev (dropWhile is_space s)))"

definition replace_period :: "string \<Rightarrow> string" where
  "replace_period s = filter (\<lambda>c. c \<noteq> CHR ''.'') s"

section \<open>The header list\<close>

definition COMMON_HEADERS :: "string list" where
  "COMMON_HEADERS =
     [''Domicile'', ''Legal Status'', ''Promoter/Initiator'', ''Monterey SchemelD'',
      ''Fund Name'', ''Sub-Fund Name'', ''Region & Category'', ''Industry'',
      ''Asset Allocation'', ''Fund Of Funds / Fund of Hedge Funds'', ''Master/Feeder'',
      ''Monterey Admin ID'', ''Administrator Location'', ''Monterey Audit ID'',
      ''Auditor'', ''Auditor Location'', ''Monterey Leg ID'', ''Legal Adviser'',
      ''Legal Adviser Location'', ''Transfer Agent'', ''Monterey ManCo/AIFM ID'',
      ''ManCo/AlFM Location'', ''ManCo/AIFM Parent Origin'', ''ManCo/AIFM Third Party'',
      ''Registered AIFM'', ''Self Managed'', ''Fund Vintage Year/Launch Date'',
      ''Sub-Fund Vintage Year/Launch Date'', ''Promoter Origin Code'', ''Administrator'',
      ''UCITS/ AIF'', ''TNAV USD'', ''USS TNAV'']"

section \<open>Tables\<close>

text \<open>
  A cell of a sheet is missing (\<open>NaN\<close>), a text or a number. A table has a list of
  column labels, in which a label may occur more than once, and a list of rows. A row
  shorter than the label list reads as missing in the cells it lacks.
  The labels of a sheet as the reader returns it are texts or, for a numeric header cell,
  numbers; after normalisation every label is a text.
\<close>

datatype cell = NaN | Str string | Num int

datatype label = StrLabel string | NumLabel int

record 'l dataframe =
  columns :: "'l list"
  rows :: "cell list list"

datatype error = ReadError string | TypeError | KeyError | InvalidIndexError

definition cell_at :: "cell list \<Rightarrow> nat \<Rightarrow> cell" where
  "cell_at r i = (if i < length r then r ! i else NaN)"

definition positions :: "'l list \<Rightarrow> 'l \<Rightarrow> nat list" where
  "positions cols l = filter (\<lambda>i. cols ! i = l) [0..<length cols]"

text \<open>The cells of a row under a label: one for each column that carries the label.\<close>

definition cells_under :: "'l list \<Rightarrow> cell list \<Rightarrow> 'l \<Rightarrow> cell list" where
  "cells_under cols r l = map (cell_at r) (positions cols l)"

text \<open>\<^verbatim>\<open>pd.DataFrame()\<close>: no columns and no rows.\<close>

definition DataFrame :: "'l dataframe" where
  "DataFrame = \<lparr>columns = [], rows = []\<rparr>"

text \<open>\<^verbatim>\<open>df.empty\<close>: some axis has length 0.\<close>

definition empty_df :: "'l dataframe \<Rightarrow> bool" where
  "empty_df df \<longleftrightarrow> columns df = [] \<or> rows df = []"

text \<open>
  \<^verbatim>\<open>df[cols]\<close> with a list of labels: for each requested label in turn, every column
  carrying that label; a label the table lacks raises KeyError.
\<close>

definition getitem_list :: "'l dataframe \<Rightarrow> 'l list \<Rightarrow> error + 'l dataframe" where
  "getitem_list df cols =
     (if \<exists>c \<in> set cols. c \<notin> set (columns df) then Inl KeyError
      else
        let ix = concat (map (positions (columns df)) cols)
        in Inr \<lparr>columns = map (\<lambda>i. columns df ! i) ix,
                 rows = map (\<lambda>r. map (cell_at r) ix) (rows df)\<rparr>)"

text \<open>
  \<^verbatim>\<open>df[label] = value\<close> with a scalar: every column carrying the label is overwritten;
  when there is none, a new last column is added.
\<close>

definition setitem :: "'l dataframe \<Rightarrow> 'l \<Rightarrow> cell \<Rightarrow> 'l dataframe" where
  "setitem df l v =
     (if l \<in> set (columns df)
      then \<lparr>columns = columns df,
            rows = map (\<lambda>r. map (\<lambda>i. if columns df ! i = l then v else cell_at r i)
                                [0..<length (columns df)]) (rows df)\<rparr>
      else \<lparr>columns = columns df @ [l],
            rows = map (\<lambda>r. map (cell_at r) [0..<length (columns df)] @ [v]) (rows df)\<rparr>)"

text \<open>The distinct elements of a list, in the order of their first occurrence.\<close>

definition unique :: "'a list \<Rightarrow> 'a list" where
  "unique xs = rev (remdups (rev xs))"

text \<open>
  \<^verbatim>\<open>pd.concat([a, b], ignore_index=True)\<close>, an outer join on the columns.
  The row labels are renumbered, so a table is its columns and its rows in order.
  \<^item> The empty table \<^verbatim>\<open>pd.DataFrame()\<close> contributes nothing: the result is \<open>b\<close>.
  \<^item> Equal label lists: the rows of \<open>b\<close> follow the rows of \<open>a\<close>.
  \<^item> Otherwise both tables are re-indexed to the union of the labels (those of \<open>a\<close>,
    then the new ones of \<open>b\<close>), a missing column reading as \<open>NaN\<close>; re-indexing a table
    with a repeated label raises InvalidIndexError.
\<close>

definition reindex :: "'l list \<Rightarrow> 'l list \<Rightarrow> cell list \<Rightarrow> cell list" where
  "reindex cols new r =
     map (\<lambda>l. case positions cols l of [] \<Rightarrow> NaN | i # _ \<Rightarrow> cell_at r i) new"

definition union_indexes :: "'l list \<Rightarrow> 'l list \<Rightarrow> 'l list" where
  "union_indexes a b = unique a @ filter (\<lambda>l. l \<notin> set a) (unique b)"

definition pd_concat :: "'l dataframe \<Rightarrow> 'l dataframe \<Rightarrow> error + 'l dataframe" where
  "pd_concat a b =
     (if columns a = [] \<and> rows a = [] then
        Inr \<lparr>columns = columns b, rows = map (\<lambda>r. map (cell_at r) [0..<length (columns b)]) (rows b)\<rparr>
      else if columns a = columns b then
        Inr \<lparr>columns = columns a,
             rows = map (\<lambda>r. map (cell_at r) [0..<length (columns a)]) (rows a @ rows b)\<rparr>
      else if \<not> distinct (columns a) \<or> \<not> distinct (columns b) then Inl InvalidIndexError
      else
        let new = union_indexes (columns a) (columns b)
        in Inr \<lparr>columns = new,
                 rows = map (reindex (columns a) new) (rows a) @
                        map (reindex (columns b) new) (rows b)\<rparr>)"

section \<open>Uploaded files and the state of a run\<close>

text \<open>
  An uploaded file has a name and a byte content, and further attributes of the
  front end (its identifier and its MIME type) that the program never reads.
  \<^verbatim>\<open>pd.read_excel\<close> is the library's reader: it is a parameter \<open>read_excel\<close> of the
  model, a function from the bytes of the file to a table or an exception.
\<close>

record uploaded_file =
  file_id :: string
  name :: string
  mime_type :: string
  content :: string

type_synonym reader = "string \<Rightarrow> error + label dataframe"

text \<open>What the program writes to the page while it processes the files.\<close>

datatype message =
    Processing string
  | OriginalColumns string "string list"
  | NoCommonHeaders string
  | SuccessfullyProcessed string
  | ExtractedHeaders "string list"
  | ErrorProcessing string error

record app_state =
  all_data_df :: "string dataframe"
  processed_files_count :: int
  found_headers_across_files :: "string set"
  progress_bar :: rat
  messages :: "message list"

definition initial_state :: app_state where
  "initial_state =
     \<lparr>all_data_df = DataFrame, processed_files_count = 0,
      found_headers_across_files = {}, progress_bar = 0, messages = []\<rparr>"

section \<open>Processing one file\<close>

text \<open>
  \<^verbatim>\<open>', '.join(df.columns.tolist())\<close> raises TypeError unless every label is a text.
\<close>

fun join_columns :: "label list \<Rightarrow> error + string list" where
  "join_columns [] = Inr []"
| "join_columns (StrLabel s # ls) =
     (case join_columns ls of Inl e \<Rightarrow> Inl e | Inr ss \<Rightarrow> Inr (s # ss))"
| "join_columns (NumLabel k # ls) = Inl TypeError"

text \<open>Lines 54 and 55: strip each column name, then delete its periods.\<close>

definition normalize_column :: "string \<Rightarrow> string" where
  "normalize_column c = replace_period (strip c)"

definition normalize_columns :: "string list \<Rightarrow> string list" where
  "normalize_columns cols = map normalize_column cols"

text \<open>Line 61 and line 74: the columns equal to a header when both are lower-cased.\<close>

definition matching_cols :: "string list \<Rightarrow> string \<Rightarrow> string list" where
  "matching_cols cols header = filter (\<lambda>col. lower col = lower header) cols"

text \<open>
  Lines 58 to 64: the loop over the headers. It appends the first matching column of each
  header to \<open>current_file_headers\<close> and adds it to \<open>found_headers_across_files\<close>.
\<close>

fun find_headers ::
  "string list \<Rightarrow> string list \<Rightarrow> string list \<times> string set \<Rightarrow> string list \<times> string set"
where
  "find_headers cols [] (current_file_headers, found) = (current_file_headers, found)"
| "find_headers cols (header # hs) (current_file_headers, found) =
     (case matching_cols cols header of
        [] \<Rightarrow> find_headers cols hs (current_file_headers, found)
      | c # _ \<Rightarrow> find_headers cols hs (current_file_headers @ [c], insert c found))"

text \<open>
  Lines 72 to 76: the loop over 'Domicile', 'Legal Status' and then the other headers
  found, which appends the first matching column of each name.
\<close>

fun extract_loop :: "string list \<Rightarrow> string list \<Rightarrow> string list \<Rightarrow> string list" where
  "extract_loop cols [] cols_to_extract = cols_to_extract"
| "extract_loop cols (col_name # ns) cols_to_extract =
     (case matching_cols cols col_name of
        [] \<Rightarrow> extract_loop cols ns cols_to_extract
      | c # _ \<Rightarrow> extract_loop cols ns (cols_to_extract @ [c]))"

definition cols_to_extract :: "string list \<Rightarrow> string list \<Rightarrow> string list" where
  "cols_to_extract cols current_file_headers =
     extract_loop cols
       ([''Domicile'', ''Legal Status''] @
        filter (\<lambda>h. h \<notin> set [''Domicile'', ''Legal Status'']) current_file_headers) []"

text \<open>
  How the body of the \<^verbatim>\<open>try\<close> block ends: it runs to its end, it leaves through
  \<^verbatim>\<open>continue\<close>, or it raises.
\<close>

datatype outcome = Done | Continue | Raised error

text \<open>
  Lines 47 to 84, the body of the \<^verbatim>\<open>try\<close> block. What was written to the state before
  an exception stays written.
\<close>

definition try_body :: "reader \<Rightarrow> app_state \<Rightarrow> uploaded_file \<Rightarrow> outcome \<times> app_state" where
  "try_body read_excel st uploaded_file =
     (case read_excel (content uploaded_file) of
        Inl e \<Rightarrow> (Raised e, st)
      | Inr df \<Rightarrow>
          let st1 = st\<lparr>messages := messages st @ [Processing (name uploaded_file)]\<rparr> in
          (case join_columns (columns df) of
             Inl e \<Rightarrow> (Raised e, st1)
           | Inr original \<Rightarrow>
               let st2 = st1\<lparr>messages :=
                              messages st1 @ [OriginalColumns (name uploaded_file) original]\<rparr>;
                   df1 = \<lparr>columns = normalize_columns original, rows = rows df\<rparr>;
                   (current_file_headers, found) =
                      find_headers (columns df1) COMMON_HEADERS
                        ([], found_headers_across_files st2);
                   st3 = st2\<lparr>found_headers_across_files := found\<rparr>
               in
                 if current_file_headers = [] then
                   (Continue,
                    st3\<lparr>messages := messages st3 @ [NoCommonHeaders (name uploaded_file)]\<rparr>)
                 else
                   let cols = cols_to_extract (columns df1) current_file_headers in
                   (case getitem_list df1 cols of
                      Inl e \<Rightarrow> (Raised e, st3)
                    | Inr extracted \<Rightarrow>
                        let extracted_df =
                              setitem extracted ''Source File'' (Str (name uploaded_file))
                        in
                          (case pd_concat (all_data_df st3) extracted_df of
                             Inl e \<Rightarrow> (Raised e, st3)
                           | Inr all_data \<Rightarrow>
                               (Done,
                                st3\<lparr>all_data_df := all_data,
                                    processed_files_count := processed_files_count st3 + 1,
                                    messages :=
                                      messages st3 @
                                      [SuccessfullyProcessed (name uploaded_file),
                                       ExtractedHeaders cols]\<rparr>)))))"

text \<open>
  Lines 45 to 89, one turn of the loop: the \<^verbatim>\<open>except\<close> clause reports the exception,
  and the \<^verbatim>\<open>finally\<close> clause moves the progress bar to \<open>(i + 1) / n\<close> however the body
  ended.
\<close>

definition process_file :: "reader \<Rightarrow> nat \<Rightarrow> app_state \<Rightarrow> nat \<Rightarrow> uploaded_file \<Rightarrow> app_state" where
  "process_file read_excel n st i uploaded_file =
     (let (oc, st1) = try_body read_excel st uploaded_file;
          st2 = (case oc of
                   Raised e \<Rightarrow>
                     st1\<lparr>messages := messages st1 @ [ErrorProcessing (name uploaded_file) e]\<rparr>
                 | _ \<Rightarrow> st1)
      in st2\<lparr>progress_bar := of_nat (i + 1) / of_nat n\<rparr>)"

text \<open>The loop over \<^verbatim>\<open>enumerate(uploaded_files)\<close>, from index \<open>i\<close> on.\<close>

fun process_files ::
  "reader \<Rightarrow> nat \<Rightarrow> app_state \<Rightarrow> nat \<Rightarrow> uploaded_file list \<Rightarrow> app_state" where
  "process_files read_excel n st i [] = st"
| "process_files read_excel n st i (f # fs) =
     process_files read_excel n (process_file read_excel n st i f) (Suc i) fs"

text \<open>How the body ended for each file of the loop, in order.\<close>

fun outcomes ::
  "reader \<Rightarrow> nat \<Rightarrow> app_state \<Rightarrow> nat \<Rightarrow> uploaded_file list \<Rightarrow> outcome list" where
  "outcomes read_excel n st i [] = []"
| "outcomes read_excel n st i (f # fs) =
     fst (try_body read_excel st f) #
     outcomes read_excel n (process_file read_excel n st i f) (Suc i) fs"

text \<open>The files for which the body ran to its end, in order.\<close>

definition processed ::
  "reader \<Rightarrow> nat \<Rightarrow> app_state \<Rightarrow> nat \<Rightarrow> uploaded_file list \<Rightarrow> uploaded_file list" where
  "processed read_excel n st i fs =
     map fst (filter (\<lambda>(f, oc). oc = Done) (zip fs (outcomes read_excel n st i fs)))"

text \<open>
  Lines 47 to 79 alone: the table \<^verbatim>\<open>extracted_df\<close> that the body builds from a file before
  it concatenates, when it gets that far. The columns chosen do not depend on the state.
\<close>

definition extracted_of :: "reader \<Rightarrow> uploaded_file \<Rightarrow> string dataframe option" where
  "extracted_of read_excel uploaded_file =
     (case read_excel (content uploaded_file) of
        Inl e \<Rightarrow> None
      | Inr df \<Rightarrow>
          (case join_columns (columns df) of
             Inl e \<Rightarrow> None
           | Inr original \<Rightarrow>
               let df1 = \<lparr>columns = normalize_columns original, rows = rows df\<rparr>;
                   current_file_headers = fst (find_headers (columns df1) COMMON_HEADERS ([], {}))
               in
                 if current_file_headers = [] then None
                 else
                   (case getitem_list df1 (cols_to_extract (columns df1) current_file_headers) of
                      Inl e \<Rightarrow> None
                    | Inr extracted \<Rightarrow>
                        Some (setitem extracted ''Source File'' (Str (name uploaded_file))))))"

text \<open>The rows of the extracted table of a file, each with the labels of that table.\<close>

definition extracted_rows :: "reader \<Rightarrow> uploaded_file \<Rightarrow> (string list \<times> cell list) list" where
  "extracted_rows read_excel uploaded_file =
     (case extracted_of read_excel uploaded_file of
        None \<Rightarrow> []
      | Some extracted_df \<Rightarrow> map (Pair (columns extracted_df)) (rows extracted_df))"

section \<open>The report\<close>

text \<open>
  \<^verbatim>\<open>df[label]\<close> with one label: for each row, the cells under that label. When the
  label occurs once this is a series, one cell per row; when it is repeated, each row
  has one cell for every column carrying the label.
\<close>

definition getitem :: "'l dataframe \<Rightarrow> 'l \<Rightarrow> cell list list" where
  "getitem df l = map (\<lambda>r. cells_under (columns df) r l) (rows df)"

text \<open>
  \<^verbatim>\<open>sort_values(ascending=False)\<close> on a table of counts. The library does not fix the
  order of entries with equal counts; the model keeps them in their order.
\<close>

definition sort_values_desc :: "('k \<times> nat) list \<Rightarrow> ('k \<times> nat) list" where
  "sort_values_desc t = sort_key (\<lambda>p. - int (snd p)) t"

text \<open>
  \<^verbatim>\<open>value_counts(dropna=False)\<close>: every distinct key with the number of its occurrences,
  most frequent first; a missing value is a key like any other.
  \<^verbatim>\<open>value_counts()\<close> drops the keys with a missing value first.
\<close>

definition value_counts :: "'k list \<Rightarrow> ('k \<times> nat) list" where
  "value_counts keys = sort_values_desc (map (\<lambda>k. (k, count_list keys k)) (unique keys))"

definition dropna :: "cell list list \<Rightarrow> cell list list" where
  "dropna keys = filter (\<lambda>k. NaN \<notin> set k) keys"

text \<open>
  \<^verbatim>\<open>df[label].nunique()\<close>: for each column carrying the label, the number of its
  distinct values that are not missing.
\<close>

definition nunique :: "'l dataframe \<Rightarrow> 'l \<Rightarrow> nat list" where
  "nunique df l =
     map (\<lambda>i. length (unique (filter (\<lambda>v. v \<noteq> NaN) (map (\<lambda>r. cell_at r i) (rows df)))))
       (positions (columns df) l)"

text \<open>What the program displays after the loop. The charts show the same counts.\<close>

datatype item =
    Preview "cell list list"
  | Distribution string "(cell list \<times> nat) list"
  | Top5 string "(cell list \<times> nat) list"
  | NumberUnique string "nat list"
  | MostFrequent string "(cell list \<times> nat) list"
  | NoColumn string
  | FoundHeaders "string list"
  | NoHeadersFound

text \<open>Lines 98 to 142: the analysis of 'Domicile' and of 'Legal Status'.\<close>

definition analysis_with_top5 :: "string dataframe \<Rightarrow> string \<Rightarrow> item list" where
  "analysis_with_top5 df field =
     (if field \<in> set (columns df) then
        let counts = sort_values_desc (value_counts (getitem df field))
        in [Distribution field counts, Top5 field (take 5 counts),
            NumberUnique field (nunique df field)]
      else [NoColumn field])"

text \<open>Lines 147 to 155: 'Fund Name' and 'Promoter/Initiator'.\<close>

definition analysis_most_frequent :: "string dataframe \<Rightarrow> string \<Rightarrow> item list" where
  "analysis_most_frequent df field =
     (if field \<in> set (columns df) then
        [NumberUnique field (nunique df field),
         MostFrequent field (take 5 (value_counts (dropna (getitem df field))))]
      else [])"

text \<open>Lines 157 to 181: 'Industry' and 'Asset Allocation'.\<close>

definition analysis_distribution :: "string dataframe \<Rightarrow> string \<Rightarrow> item list" where
  "analysis_distribution df field =
     (if field \<in> set (columns df) then
        [NumberUnique field (nunique df field),
         Distribution field (sort_values_desc (value_counts (getitem df field)))]
      else [])"

text \<open>Lines 184 to 188: the headers found, sorted.\<close>

definition summary :: "string set \<Rightarrow> item list" where
  "summary found = (if found \<noteq> {} then [FoundHeaders (sorted_list_of_set found)] else [NoHeadersFound])"

definition analysis :: "app_state \<Rightarrow> item list" where
  "analysis st =
     (let df = all_data_df st in
      [Preview (take 5 (rows df))] @
      analysis_with_top5 df ''Domicile'' @
      analysis_with_top5 df ''Legal Status'' @
      analysis_most_frequent df ''Fund Name'' @
      analysis_most_frequent df ''Promoter/Initiator'' @
      analysis_distribution df ''Industry'' @
      analysis_distribution df ''Asset Allocation'' @
      summary (found_headers_across_files st))"

text \<open>
  The whole script, lines 34 to 194: the page it renders for a list of uploaded files.
\<close>

datatype page = PleaseUpload | NoDataProcessed app_state | Results app_state "item list"

definition run :: "reader \<Rightarrow> uploaded_file list \<Rightarrow> page" where
  "run read_excel uploaded_files =
     (if uploaded_files = [] then PleaseUpload
      else
        let st = process_files read_excel (length uploaded_files) initial_state 0 uploaded_files
        in if \<not> empty_df (all_data_df st) then Results st (analysis st)
           else NoDataProcessed st)"

section \<open>The reading of the specification's words\<close>

text \<open>
  "Equal up to case differences and up to whitespace differences": the two names agree
  once their white space is deleted and their letters are lower-cased.
\<close>

definition spec_equal_upto_case_and_whitespace :: "string \<Rightarrow> string \<Rightarrow> bool" where
  "spec_equal_upto_case_and_whitespace a b \<longleftrightarrow>
     lower (filter (\<lambda>c. \<not> is_space c) a) = lower (filter (\<lambda>c. \<not> is_space c) b)"

text \<open>
  "Header matching is insensitive to periods in column names": a name matches a header
  exactly when the name with its periods deleted does.
\<close>

definition spec_matching_ignores_periods :: "string \<Rightarrow> string \<Rightarrow> bool" where
  "spec_matching_ignores_periods c h \<longleftrightarrow>
     (matching_cols (normalize_columns [c]) h \<noteq> []) =
     (matching_cols (normalize_columns [replace_period c]) h \<noteq> [])"

section \<open>Facts about the string functions\<close>

lemma lower_char_cases:
  "lower_char c = c \<or> (c \<in> set upper_case \<and> lower_char c \<in> set lower_case)"
proof (cases "map_of (zip upper_case lower_case) c")
  case None
  then show ?thesis by (simp add: lower_char_def)
next
  case (Some d)
  then have "(c, d) \<in> set (zip upper_case lower_case)" by (rule map_of_SomeD)
  then have "c \<in> set upper_case" "d \<in> set lower_case"
    by (auto dest: set_zip_leftD set_zip_rightD)
  with Some show ?thesis by (simp add: lower_char_def)
qed

lemma letters_not_space:
  "\<forall>d \<in> set upper_case. \<not> is_space d"
  "\<forall>d \<in> set lower_case. \<not> is_space d"
  by code_simp+

lemma is_space_lower_char: "is_space (lower_char c) \<longleftrightarrow> is_space c"
proof (cases "lower_char c = c")
  case True
  then show ?thesis by simp
next
  case False
  with lower_char_cases [of c]
  have m: "c \<in> set upper_case" "lower_char c \<in> set lower_case" by blast+
  from letters_not_space(1) [rule_format, OF m(1)] letters_not_space(2) [rule_format, OF m(2)]
  show ?thesis by (simp only:)
qed

lemma lower_char_space: "is_space c \<Longrightarrow> lower_char c = c"
  using lower_char_cases [of c] letters_not_space(1) by blast

lemma lower_char_eq_space:
  assumes "lower_char x = lower_char y" and "is_space x \<or> is_space y"
  shows "x = y"
proof -
  from assms is_space_lower_char [of x] is_space_lower_char [of y]
  have "is_space x" "is_space y" by auto
  with assms(1) show ?thesis by (simp add: lower_char_space)
qed

lemma period_not_space: "\<not> is_space (CHR ''.'')"
  by (simp add: is_space_def)

lemma strip_id:
  assumes "c \<noteq> []" "\<not> is_space (hd c)" "\<not> is_space (last c)"
  shows "strip c = c"
proof -
  from assms(1,2) have "dropWhile is_space c = c" by (cases c) auto
  moreover from assms(1,3) have "dropWhile is_space (rev c) = rev c"
    by (cases "rev c") (auto simp: hd_rev [symmetric])
  ultimately show ?thesis by (simp add: strip_def)
qed

lemma strip_outer:
  assumes u: "\<forall>x \<in> set u. is_space x" and v: "\<forall>x \<in> set v. is_space x"
  shows "strip (u @ c @ v) = strip c"
proof -
  from u have 1: "dropWhile is_space (u @ c @ v) = dropWhile is_space (c @ v)"
    by (simp add: dropWhile_append2)
  show ?thesis
  proof (cases "\<forall>x \<in> set c. is_space x")
    case True
    with v have "dropWhile is_space (c @ v) = []" and b: "dropWhile is_space c = []" by auto
    with 1 have a: "dropWhile is_space (u @ c @ v) = []" by simp
    show ?thesis unfolding strip_def a b by (rule refl)
  next
    case False
    then have "dropWhile is_space (c @ v) = dropWhile is_space c @ v"
      by (auto simp: dropWhile_append1)
    with 1 have "rev (dropWhile is_space (u @ c @ v)) = rev v @ rev (dropWhile is_space c)"
      by simp
    moreover have "dropWhile is_space (rev v @ rev (dropWhile is_space c)) =
        dropWhile is_space (rev (dropWhile is_space c))"
      by (rule dropWhile_append2) (use v in auto)
    ultimately have "dropWhile is_space (rev (dropWhile is_space (u @ c @ v))) =
        dropWhile is_space (rev (dropWhile is_space c))"
      by (simp only:)
    then show ?thesis by (simp add: strip_def)
  qed
qed

lemma hd_filter_keep: "xs \<noteq> [] \<Longrightarrow> P (hd xs) \<Longrightarrow> hd (filter P xs) = hd xs"
  by (cases xs) auto

lemma last_filter_keep: "xs \<noteq> [] \<Longrightarrow> P (last xs) \<Longrightarrow> last (filter P xs) = last xs"
proof (induction xs)
  case Nil
  then show ?case by simp
next
  case (Cons x xs)
  show ?case
  proof (cases "xs = []")
    case True
    with Cons.prems show ?thesis by simp
  next
    case False
    with Cons.prems have l: "P (last xs)" by simp
    with False last_in_set [of xs] have "filter P xs \<noteq> []"
      by (auto simp: filter_empty_conv)
    with False l Cons.IH show ?thesis by simp
  qed
qed

lemma ends_not_space:
  assumes eq: "lower (replace_period c) = lower h"
    and h: "h \<noteq> []" "\<not> is_space (hd h)" "\<not> is_space (last h)"
  shows "c \<noteq> [] \<and> \<not> is_space (hd c) \<and> \<not> is_space (last c)"
proof -
  from eq h(1) have ne: "replace_period c \<noteq> []" by (auto simp: lower_def)
  then have c: "c \<noteq> []" by (auto simp: replace_period_def)
  have "\<not> is_space (hd c)"
  proof (cases "hd c = CHR ''.''")
    case True
    then show ?thesis by (simp add: period_not_space)
  next
    case False
    with c have "hd (replace_period c) = hd c"
      by (simp add: replace_period_def hd_filter_keep)
    with ne have "lower_char (hd c) = hd (lower (replace_period c))"
      by (simp add: lower_def hd_map)
    also have "\<dots> = lower_char (hd h)" using eq h(1) by (simp add: lower_def hd_map)
    finally have "is_space (hd c) = is_space (hd h)"
      using is_space_lower_char [of "hd c"] is_space_lower_char [of "hd h"] by simp
    with h(2) show ?thesis by simp
  qed
  moreover have "\<not> is_space (last c)"
  proof (cases "last c = CHR ''.''")
    case True
    then show ?thesis by (simp add: period_not_space)
  next
    case False
    with c have "last (replace_period c) = last c"
      by (simp add: replace_period_def last_filter_keep)
    with ne have "lower_char (last c) = last (lower (replace_period c))"
      by (simp add: lower_def last_map)
    also have "\<dots> = lower_char (last h)" using eq h(1) by (simp add: lower_def last_map)
    finally have "is_space (last c) = is_space (last h)"
      using is_space_lower_char [of "last c"] is_space_lower_char [of "last h"] by simp
    with h(3) show ?thesis by simp
  qed
  ultimately show ?thesis using c by simp
qed

lemma headers_trimmed:
  "\<forall>h\<in>set COMMON_HEADERS. h \<noteq> [] \<and> \<not> is_space (hd h) \<and> \<not> is_space (last h)"
  by code_simp

lemma lower_headers:
  "map lower COMMON_HEADERS =
     [''domicile'', ''legal status'', ''promoter/initiator'', ''monterey schemeld'',
      ''fund name'', ''sub-fund name'', ''region & category'', ''industry'',
      ''asset allocation'', ''fund of funds / fund of hedge funds'', ''master/feeder'',
      ''monterey admin id'', ''administrator location'', ''monterey audit id'',
      ''auditor'', ''auditor location'', ''monterey leg id'', ''legal adviser'',
      ''legal adviser location'', ''transfer agent'', ''monterey manco/aifm id'',
      ''manco/alfm location'', ''manco/aifm parent origin'', ''manco/aifm third party'',
      ''registered aifm'', ''self managed'', ''fund vintage year/launch date'',
      ''sub-fund vintage year/launch date'', ''promoter origin code'', ''administrator'',
      ''ucits/ aif'', ''tnav usd'', ''uss tnav'']"
  by code_simp

section \<open>Header matching\<close>

lemma matching_cols_normalize:
  "matching_cols (normalize_columns raw) h =
     map normalize_column (filter (\<lambda>c. lower (normalize_column c) = lower h) raw)"
  by (simp add: matching_cols_def normalize_columns_def filter_map comp_def)

lemma find_headers_fst:
  "fst (find_headers cols hs (cur, found)) =
     cur @ concat (map (\<lambda>h. take 1 (matching_cols cols h)) hs)"
  by (induction hs arbitrary: cur found) (auto split: list.splits)

lemma find_headers_snd:
  "snd (find_headers cols hs (cur, found)) =
     found \<union> set (concat (map (\<lambda>h. take 1 (matching_cols cols h)) hs))"
  by (induction hs arbitrary: cur found) (auto split: list.splits)

lemma in_take1_matching:
  "c \<in> set (take k (matching_cols cols h)) \<Longrightarrow> c \<in> set cols \<and> lower c = lower h"
proof -
  assume "c \<in> set (take k (matching_cols cols h))"
  then have "c \<in> set (matching_cols cols h)" by (rule in_set_takeD)
  then show ?thesis by (simp add: matching_cols_def)
qed

lemma header_found_iff:
  assumes h: "h \<in> set hs"
  shows "(\<exists>c \<in> set cols. lower c = lower h) \<longleftrightarrow>
         (\<exists>c \<in> set (fst (find_headers cols hs ([], found))). lower c = lower h)"
proof
  assume "\<exists>c \<in> set cols. lower c = lower h"
  then have "matching_cols cols h \<noteq> []" by (auto simp: matching_cols_def filter_empty_conv)
  then obtain c rest where m: "matching_cols cols h = c # rest" by (cases "matching_cols cols h") auto
  then have "c \<in> set (matching_cols cols h)" by simp
  then have "lower c = lower h" by (simp add: matching_cols_def)
  moreover from m h have "c \<in> set (fst (find_headers cols hs ([], found)))"
    by (auto simp: find_headers_fst intro!: bexI [of _ h])
  ultimately show "\<exists>c \<in> set (fst (find_headers cols hs ([], found))). lower c = lower h"
    by blast
next
  assume "\<exists>c \<in> set (fst (find_headers cols hs ([], found))). lower c = lower h"
  then obtain c h' where "c \<in> set (take 1 (matching_cols cols h'))" "lower c = lower h"
    by (auto simp: find_headers_fst)
  with in_take1_matching [of c 1 cols h'] show "\<exists>c \<in> set cols. lower c = lower h" by auto
qed

lemma lower_eq_spaces:
  assumes "lower a = lower b"
  shows "length a = length b \<and>
         (\<forall>k < length b. is_space (a ! k) \<or> is_space (b ! k) \<longrightarrow> a ! k = b ! k)"
proof -
  from assms have len: "length a = length b" unfolding lower_def by (rule map_eq_imp_length_eq)
  have "\<forall>k < length b. lower_char (a ! k) = lower_char (b ! k)"
  proof (intro allI impI)
    fix k assume k: "k < length b"
    from assms have "map lower_char a ! k = map lower_char b ! k" by (simp add: lower_def)
    with k len show "lower_char (a ! k) = lower_char (b ! k)" by simp
  qed
  with len show ?thesis using lower_char_eq_space by blast
qed

text \<open>
  Claim C1, as the code has it. A column matches a header if and only if its name, with
  the leading and the trailing white space stripped and then the periods deleted, equals
  the header when both are lower-cased. White space around a name is ignored. White space
  inside a name is not: a matching name has the length of the header and carries the
  header's own white space, character for character. A listed header is found in a file
  exactly when some column of the file matches it.
\<close>

theorem header_matching:
  "(\<forall>i < length raw.
      normalize_columns raw ! i \<in> set (matching_cols (normalize_columns raw) h) \<longleftrightarrow>
      map lower_char
        (filter (\<lambda>x. x \<noteq> CHR ''.'')
           (rev (dropWhile is_space (rev (dropWhile is_space (raw ! i)))))) =
      map lower_char h) \<and>
   ((\<forall>x \<in> set u. is_space x) \<and> (\<forall>x \<in> set v. is_space x) \<longrightarrow>
      normalize_column (u @ c @ v) = normalize_column c) \<and>
   (lower (normalize_column c) = lower h \<longrightarrow>
      length (normalize_column c) = length h \<and>
      (\<forall>k < length h. is_space (normalize_column c ! k) \<or> is_space (h ! k) \<longrightarrow>
         normalize_column c ! k = h ! k)) \<and>
   (h \<in> set COMMON_HEADERS \<longrightarrow>
      ((\<exists>c \<in> set raw. lower (normalize_column c) = lower h) \<longleftrightarrow>
       (\<exists>c \<in> set (fst (find_headers (normalize_columns raw) COMMON_HEADERS ([], found))).
          lower c = lower h)))"
proof (intro conjI allI impI)
  fix i assume i: "i < length raw"
  have "normalize_columns raw ! i \<in> set (matching_cols (normalize_columns raw) h) \<longleftrightarrow>
        lower (normalize_columns raw ! i) = lower h"
    using i by (auto simp: matching_cols_def normalize_columns_def)
  also have "\<dots> \<longleftrightarrow> map lower_char
        (filter (\<lambda>x. x \<noteq> CHR ''.'')
           (rev (dropWhile is_space (rev (dropWhile is_space (raw ! i)))))) =
      map lower_char h"
    using i
    by (simp add: normalize_columns_def normalize_column_def replace_period_def strip_def
          lower_def)
  finally show "normalize_columns raw ! i \<in> set (matching_cols (normalize_columns raw) h) \<longleftrightarrow>
      map lower_char
        (filter (\<lambda>x. x \<noteq> CHR ''.'')
           (rev (dropWhile is_space (rev (dropWhile is_space (raw ! i)))))) =
      map lower_char h" .
next
  assume "(\<forall>x \<in> set u. is_space x) \<and> (\<forall>x \<in> set v. is_space x)"
  then show "normalize_column (u @ c @ v) = normalize_column c"
    by (simp add: normalize_column_def strip_outer)
next
  assume "lower (normalize_column c) = lower h"
  from lower_eq_spaces [OF this]
  show "length (normalize_column c) = length h"
    and "\<And>k. k < length h \<Longrightarrow> is_space (normalize_column c ! k) \<or> is_space (h ! k) \<Longrightarrow>
           normalize_column c ! k = h ! k"
    by blast+
next
  assume "h \<in> set COMMON_HEADERS"
  from header_found_iff [OF this, of "normalize_columns raw" found]
  show "(\<exists>c \<in> set raw. lower (normalize_column c) = lower h) \<longleftrightarrow>
       (\<exists>c \<in> set (fst (find_headers (normalize_columns raw) COMMON_HEADERS ([], found))).
          lower c = lower h)"
    by (simp add: normalize_columns_def)
qed

theorem header_matching_witness:
  "normalize_columns [''Name'', '' legal STATUS. ''] ! 1 \<in>
     set (matching_cols (normalize_columns [''Name'', '' legal STATUS. '']) ''Legal Status'') \<and>
   normalize_columns [''Name'', '' legal STATUS. ''] ! 0 \<notin>
     set (matching_cols (normalize_columns [''Name'', '' legal STATUS. '']) ''Legal Status'')"
proof -
  let ?raw = "[''Name'', '' legal STATUS. '']"
  let ?n = "\<lambda>s. map lower_char
        (filter (\<lambda>x. x \<noteq> CHR ''.'') (rev (dropWhile is_space (rev (dropWhile is_space s)))))"
  have a: "?n (?raw ! 1) = map lower_char ''Legal Status''" by code_simp
  have b: "?n (?raw ! 0) \<noteq> map lower_char ''Legal Status''" by code_simp
  have l: "(1 :: nat) < length ?raw" "(0 :: nat) < length ?raw" by simp_all
  from header_matching [of ?raw "''Legal Status''" "[]" "[]" "[]" "{}", THEN conjunct1]
  have "\<forall>i < length ?raw.
      normalize_columns ?raw ! i \<in> set (matching_cols (normalize_columns ?raw) ''Legal Status'') \<longleftrightarrow>
      ?n (?raw ! i) = map lower_char ''Legal Status''" .
  with a b l show ?thesis by blast
qed

text \<open>
  Claim C1, as the specification words it, fails in both directions. The column
  'Legal  Status', with two blanks inside, equals the header 'Legal Status' up to white
  space and is not matched; the column 'Auditor.' is matched with 'Auditor' and differs
  from it by a period.
\<close>

theorem header_matching_counterexample:
  "spec_equal_upto_case_and_whitespace ''Legal  Status'' ''Legal Status'' \<and>
   matching_cols (normalize_columns [''Legal  Status'']) ''Legal Status'' = [] \<and>
   fst (find_headers (normalize_columns [''Legal  Status'']) COMMON_HEADERS ([], {})) = [] \<and>
   \<not> spec_equal_upto_case_and_whitespace ''Auditor.'' ''Auditor'' \<and>
   matching_cols (normalize_columns [''Auditor.'']) ''Auditor'' = [''Auditor'']"
proof -
  have n: "normalize_columns [''Legal  Status''] = [''Legal  Status'']" by code_simp
  have l: "lower ''Legal  Status'' = ''legal  status''" by code_simp
  have "\<forall>x \<in> set (map lower COMMON_HEADERS). ''legal  status'' \<noteq> x"
    unfolding lower_headers by simp
  then have "\<forall>h \<in> set COMMON_HEADERS. matching_cols [''Legal  Status''] h = []"
    by (simp add: matching_cols_def l)
  then have "fst (find_headers (normalize_columns [''Legal  Status'']) COMMON_HEADERS ([], {})) = []"
    by (simp add: n find_headers_fst)
  moreover have "spec_equal_upto_case_and_whitespace ''Legal  Status'' ''Legal Status''"
    by code_simp
  moreover have "matching_cols (normalize_columns [''Legal  Status'']) ''Legal Status'' = []"
    by code_simp
  moreover have "\<not> spec_equal_upto_case_and_whitespace ''Auditor.'' ''Auditor''"
    by code_simp
  moreover have "matching_cols (normalize_columns [''Auditor.'']) ''Auditor'' = [''Auditor'']"
    by code_simp
  ultimately show ?thesis by (simp only: simp_thms)
qed

section \<open>Periods in column names\<close>

lemma strip_decomp:
  "\<exists>u v. c = u @ strip c @ v \<and> (\<forall>x \<in> set u. is_space x) \<and> (\<forall>x \<in> set v. is_space x)"
proof -
  let ?d = "dropWhile is_space c"
  have 1: "c = takeWhile is_space c @ ?d" by simp
  have "?d = rev (takeWhile is_space (rev ?d) @ dropWhile is_space (rev ?d))"
    by (simp only: takeWhile_dropWhile_id rev_rev_ident)
  also have "\<dots> = rev (dropWhile is_space (rev ?d)) @ rev (takeWhile is_space (rev ?d))"
    by (rule rev_append)
  finally have 2: "?d = strip c @ rev (takeWhile is_space (rev ?d))"
    by (simp only: strip_def)
  have 3: "\<forall>x \<in> set (takeWhile is_space c). is_space x"
    by (auto dest: set_takeWhileD)
  have 4: "\<forall>x \<in> set (rev (takeWhile is_space (rev ?d))). is_space x"
    by (auto dest: set_takeWhileD)
  from 1 2 have "c = takeWhile is_space c @ strip c @ rev (takeWhile is_space (rev ?d))"
    by simp
  with 3 4 show ?thesis by blast
qed

lemma replace_period_spaces:
  "\<forall>x \<in> set u. is_space x \<Longrightarrow> replace_period u = u"
  unfolding replace_period_def using period_not_space by (induction u) auto

lemma lower_trimmed:
  assumes eq: "lower a = lower h"
    and h: "h \<noteq> []" "\<not> is_space (hd h)" "\<not> is_space (last h)"
  shows "a \<noteq> [] \<and> \<not> is_space (hd a) \<and> \<not> is_space (last a)"
proof -
  from eq h(1) have a: "a \<noteq> []" by (auto simp: lower_def)
  from eq have "hd (map lower_char a) = hd (map lower_char h)"
    "last (map lower_char a) = last (map lower_char h)" by (simp_all add: lower_def)
  with a h(1) have "lower_char (hd a) = lower_char (hd h)"
    "lower_char (last a) = lower_char (last h)" by (simp_all add: hd_map last_map)
  then have "is_space (hd a) = is_space (hd h)" "is_space (last a) = is_space (last h)"
    using is_space_lower_char by metis+
  with a h show ?thesis by simp
qed

lemma normalize_outer:
  assumes h: "h \<in> set COMMON_HEADERS"
    and u: "\<forall>x \<in> set u. is_space x" and v: "\<forall>x \<in> set v. is_space x"
    and eq: "lower (replace_period c) = lower h"
  shows "normalize_column (u @ c @ v) = replace_period c"
proof -
  from h headers_trimmed have "h \<noteq> []" "\<not> is_space (hd h)" "\<not> is_space (last h)" by auto
  from ends_not_space [OF eq this] have "strip c = c" by (simp add: strip_id)
  with strip_outer [OF u v, of c] show ?thesis by (simp add: normalize_column_def)
qed

lemma deleting_periods_keeps_match:
  assumes h: "h \<in> set COMMON_HEADERS" and m: "lower (normalize_column c) = lower h"
  shows "normalize_column (replace_period c) = normalize_column c"
proof -
  let ?n = "replace_period (strip c)"
  from h headers_trimmed have t: "h \<noteq> []" "\<not> is_space (hd h)" "\<not> is_space (last h)" by auto
  from m have "lower ?n = lower h" by (simp add: normalize_column_def)
  from lower_trimmed [OF this t] have n: "strip ?n = ?n" by (simp add: strip_id)
  from strip_decomp [of c] obtain u v where
    c: "c = u @ strip c @ v" and u: "\<forall>x \<in> set u. is_space x" and v: "\<forall>x \<in> set v. is_space x"
    by blast
  have "replace_period c = replace_period (u @ strip c @ v)" using c by simp
  also have "\<dots> = replace_period u @ ?n @ replace_period v" by (simp add: replace_period_def)
  also have "\<dots> = u @ ?n @ v" using u v by (simp add: replace_period_spaces)
  finally have "strip (replace_period c) = strip ?n" using strip_outer [OF u v] by simp
  with n have "strip (replace_period c) = ?n" by simp
  then have "normalize_column (replace_period c) = replace_period ?n"
    by (simp add: normalize_column_def)
  then show ?thesis by (simp add: normalize_column_def replace_period_def)
qed

text \<open>
  Claim C10, as the code has it. Each column name is stripped of its leading and trailing
  white space and then loses every period, in that order, its other characters staying
  as they are. So a name that is optional white space around a text which, with its
  periods deleted, equals a listed header up to case is matched with that header, under
  the text without its periods: 'Auditor.' is extracted as 'Auditor'. And deleting the
  periods of a matched name leaves it matched, under the same normalised name.
\<close>

theorem periods_removed_before_matching:
  "normalize_columns raw = map (\<lambda>c. filter (\<lambda>x. x \<noteq> CHR ''.'') (strip c)) raw \<and>
   (\<forall>h \<in> set COMMON_HEADERS.
      ((\<forall>x \<in> set u. is_space x) \<and> (\<forall>x \<in> set v. is_space x) \<and>
       lower (filter (\<lambda>x. x \<noteq> CHR ''.'') c) = lower h \<longrightarrow>
         normalize_column (u @ c @ v) = filter (\<lambda>x. x \<noteq> CHR ''.'') c \<and>
         (u @ c @ v \<in> set raw \<longrightarrow>
            filter (\<lambda>x. x \<noteq> CHR ''.'') c \<in> set (matching_cols (normalize_columns raw) h))) \<and>
      (lower (normalize_column c) = lower h \<longrightarrow>
         normalize_column (replace_period c) = normalize_column c))"
proof (intro conjI ballI impI)
  show "normalize_columns raw = map (\<lambda>c. filter (\<lambda>x. x \<noteq> CHR ''.'') (strip c)) raw"
    by (simp add: normalize_columns_def normalize_column_def replace_period_def)
next
  fix h
  assume h: "h \<in> set COMMON_HEADERS"
    and a: "(\<forall>x \<in> set u. is_space x) \<and> (\<forall>x \<in> set v. is_space x) \<and>
       lower (filter (\<lambda>x. x \<noteq> CHR ''.'') c) = lower h"
  then have eq: "lower (replace_period c) = lower h" by (simp add: replace_period_def)
  from normalize_outer [OF h _ _ eq, of u v] a
  have n: "normalize_column (u @ c @ v) = replace_period c" by blast
  then show "normalize_column (u @ c @ v) = filter (\<lambda>x. x \<noteq> CHR ''.'') c"
    by (simp add: replace_period_def)
  assume "u @ c @ v \<in> set raw"
  with n eq have "u @ c @ v \<in> {x \<in> set raw. lower (normalize_column x) = lower h}" by simp
  then have "normalize_column (u @ c @ v) \<in> set (matching_cols (normalize_columns raw) h)"
    unfolding matching_cols_normalize set_map set_filter by (rule imageI)
  with n show "filter (\<lambda>x. x \<noteq> CHR ''.'') c \<in> set (matching_cols (normalize_columns raw) h)"
    by (simp add: replace_period_def)
next
  fix h
  assume "h \<in> set COMMON_HEADERS" "lower (normalize_column c) = lower h"
  then show "normalize_column (replace_period c) = normalize_column c"
    by (rule deleting_periods_keeps_match)
qed

theorem periods_removed_before_matching_witness:
  "''Auditor'' \<in> set (matching_cols (normalize_columns [''Name'', '' Auditor. '']) ''Auditor'') \<and>
   normalize_column '' Auditor. '' = ''Auditor''"
proof -
  let ?raw = "[''Name'', '' Auditor. '']"
  have h: "''Auditor'' \<in> set COMMON_HEADERS" by (simp add: COMMON_HEADERS_def)
  have u: "\<forall>x \<in> set '' ''. is_space x" by (simp add: is_space_def)
  have eq: "lower (filter (\<lambda>x. x \<noteq> CHR ''.'') ''Auditor.'') = lower ''Auditor''" by simp
  have m: "'' '' @ ''Auditor.'' @ '' '' \<in> set ?raw" by simp
  from periods_removed_before_matching [of ?raw "'' ''" "'' ''" "''Auditor.''", THEN conjunct2,
      rule_format, OF h, THEN conjunct1, rule_format, OF conjI [OF u conjI [OF u eq]]]
  have "normalize_column ('' '' @ ''Auditor.'' @ '' '') = filter (\<lambda>x. x \<noteq> CHR ''.'') ''Auditor.''"
    and "'' '' @ ''Auditor.'' @ '' '' \<in> set ?raw \<longrightarrow>
       filter (\<lambda>x. x \<noteq> CHR ''.'') ''Auditor.'' \<in> set (matching_cols (normalize_columns ?raw) ''Auditor'')"
    by blast+
  with m show ?thesis by simp
qed

text \<open>
  Claim C10, as the specification words it, fails: matching is not insensitive to periods.
  Line 54 strips before line 55 deletes the periods, so in 'Auditor .' the blank is not
  stripped and the name is not matched, while 'Auditor ', the same name without its
  period, is.
\<close>

theorem periods_removed_before_matching_counterexample:
  "\<not> spec_matching_ignores_periods ''Auditor .'' ''Auditor'' \<and>
   replace_period ''Auditor .'' = ''Auditor '' \<and>
   matching_cols (normalize_columns [''Auditor .'']) ''Auditor'' = [] \<and>
   matching_cols (normalize_columns [''Auditor '']) ''Auditor'' = [''Auditor'']"
  by code_simp

section \<open>One turn of the loop\<close>












end
